theory Spec2Isabelle
  imports Complex_Main
begin

section \<open>Toponym resolution against GeoNames: the data model\<close>

text \<open>
  The program \<^verbatim>\<open>find_GeoNamesID.py\<close> resolves place names to GeoNames identifiers
  through the GeoNames search service and scores the predictions. Python exceptions
  are values of \<open>py_error\<close>; a function that can raise returns \<open>py_error + 'a\<close>.
\<close>

datatype py_error =
    KeyError string
  | IndexError
  | TypeError
  | ZeroDivisionError
  | OverflowError
  | RequestException

text \<open>
  One entry of the \<^verbatim>\<open>"geonames"\<close> array of a search response. It is a JSON object, so
  each key the program reads may be missing: \<^verbatim>\<open>d["k"]\<close> raises \<^verbatim>\<open>KeyError\<close> then.
\<close>

record geoname =
  geonameId :: "int option"
  fcode :: "string option"
  countryCode :: "string option"

text \<open>
  What \<^verbatim>\<open>response.json()\<close> gives: the empty object (\<^verbatim>\<open>len(data) == 0\<close>), a non-empty
  object without the key \<^verbatim>\<open>"geonames"\<close> (the service's status messages), or an object
  with the candidate list.
\<close>

datatype response = EmptyObject | NoGeonames | Geonames "geoname list"

text \<open>
  The service is outside the program. It is a parameter: the answer to a URL may change
  with time, so it also depends on how many requests the run has sent before. \<open>Inl\<close> is
  an exception of \<^verbatim>\<open>requests.get\<close> or of \<^verbatim>\<open>response.json()\<close>.
\<close>

type_synonym gazetteer = "nat \<Rightarrow> string \<Rightarrow> py_error + response"

text \<open>
  The second argument of \<^verbatim>\<open>findID\<close>: left out, so that \<^verbatim>\<open>codes\<close> is the default
  \<^verbatim>\<open>False\<close>; \<^verbatim>\<open>False\<close> passed by the caller; or a string. The memo table of \<^verbatim>\<open>lru_cache\<close>
  is keyed by the arguments of the call, so that it tells the first two apart. The
  program itself calls \<^verbatim>\<open>findID(t)\<close> and \<^verbatim>\<open>findID(t, codesURL)\<close> only.
\<close>

datatype codes_arg = CodesDefault | CodesFalse | CodesStr string

text \<open>
  \<^verbatim>\<open>findID\<close> returns a bare id in the mode with codes and a pair of an id and a list of
  at most one country code in the country mode.
\<close>

datatype result = Id int | IdCodes int "string list"

text \<open>
  The state of a run: the URLs sent to the service so far, oldest first, and the two
  memo tables of \<^verbatim>\<open>functools.lru_cache(maxsize=None)\<close>, which never evict.
\<close>

record world =
  requests :: "string list"
  baseline_cache :: "string \<rightharpoonup> int"
  findID_cache :: "string \<times> codes_arg \<rightharpoonup> result"

text \<open>A row of the input table, and a row with the added column \<^verbatim>\<open>predID\<close>.\<close>

record mention =
  articleID :: string
  toponym :: string
  geoID :: int
  isTitle :: bool

record row = mention +
  predID :: int

section \<open>The resolver\<close>

text \<open>
  \<^verbatim>\<open>requests.get(URL)\<close> followed by \<^verbatim>\<open>response.json()\<close>: the URL is sent and logged,
  the service answers. The \<^verbatim>\<open>print\<close> of the status code is not modelled.
\<close>

definition http_get :: "gazetteer \<Rightarrow> string \<Rightarrow> world \<Rightarrow> (py_error + response) \<times> world" where
  "http_get gaz URL w = (gaz (length (requests w)) URL, w\<lparr>requests := requests w @ [URL]\<rparr>)"

definition urlBase :: string where
  "urlBase = ''http://api.geonames.org/searchJSON?q=''"

text \<open>The three URLs the program builds; \<open>user\<close> is \<^verbatim>\<open>global_username\<close>.\<close>

definition baseline_URL :: "string \<Rightarrow> string \<Rightarrow> string" where
  "baseline_URL user placeName = urlBase @ placeName @ ''&maxRows=1&username='' @ user"

definition codes_URL :: "string \<Rightarrow> string \<Rightarrow> string \<Rightarrow> string" where
  "codes_URL user placeName codes =
     urlBase @ placeName @ ''&searchlang=nl'' @ codes @ ''&maxRows=1&username='' @ user"

definition country_URL :: "string \<Rightarrow> string \<Rightarrow> string" where
  "country_URL user placeName = urlBase @ placeName @ ''&searchlang=nl&maxRows=2&username='' @ user"

text \<open>The body of \<^verbatim>\<open>findID_baseline\<close>, without its cache.\<close>

definition findID_baseline_body ::
  "gazetteer \<Rightarrow> string \<Rightarrow> string \<Rightarrow> world \<Rightarrow> (py_error + int) \<times> world" where
  "findID_baseline_body gaz user placeName w =
     (case http_get gaz (baseline_URL user placeName) w of
        (Inl e, w') \<Rightarrow> (Inl e, w')
      | (Inr data, w') \<Rightarrow>
          (case data of
             EmptyObject \<Rightarrow> (Inr 0, w')
           | NoGeonames \<Rightarrow> (Inl (KeyError ''geonames''), w')
           | Geonames geodata \<Rightarrow>
               (case geodata of
                  [] \<Rightarrow> (Inr 0, w')
                | result # _ \<Rightarrow>
                    (case geonameId result of
                       None \<Rightarrow> (Inl (KeyError ''geonameId''), w')
                     | Some i \<Rightarrow> (Inr i, w')))))"

text \<open>
  \<^verbatim>\<open>@lru_cache(maxsize=None)\<close>: a key already in the table is answered from it and the
  body does not run; otherwise the body runs and its value is stored. An exception
  leaves the table as it is.
\<close>

definition findID_baseline ::
  "gazetteer \<Rightarrow> string \<Rightarrow> string \<Rightarrow> world \<Rightarrow> (py_error + int) \<times> world" where
  "findID_baseline gaz user placeName w =
     (case baseline_cache w placeName of
        Some v \<Rightarrow> (Inr v, w)
      | None \<Rightarrow>
          (case findID_baseline_body gaz user placeName w of
             (Inl e, w') \<Rightarrow> (Inl e, w')
           | (Inr v, w') \<Rightarrow>
               (Inr v, w'\<lparr>baseline_cache := (baseline_cache w')(placeName \<mapsto> v)\<rparr>)))"

definition startswith :: "string \<Rightarrow> string \<Rightarrow> bool" where
  "startswith s p = (take (length p) s = p)"

text \<open>
  The loop \<^verbatim>\<open>for option in geodata\<close> of the country mode. Falling out of the loop
  returns \<^verbatim>\<open>id, []\<close> with \<^verbatim>\<open>id\<close> still 0.
\<close>

fun scan :: "geoname list \<Rightarrow> py_error + result" where
  "scan [] = Inr (IdCodes 0 [])"
| "scan (opt # rest) =
     (case fcode opt of
        None \<Rightarrow> Inl (KeyError ''fcode'')
      | Some fc \<Rightarrow>
          if startswith fc ''PCL'' then
            (case geonameId opt of
               None \<Rightarrow> Inl (KeyError ''geonameId'')
             | Some i \<Rightarrow>
                 Inr (IdCodes i (case countryCode opt of Some cc \<Rightarrow> [cc] | None \<Rightarrow> [])))
          else scan rest)"

text \<open>\<^verbatim>\<open>if codes:\<close> holds for a non-empty string only.\<close>

fun truthy :: "codes_arg \<Rightarrow> bool" where
  "truthy CodesDefault = False"
| "truthy CodesFalse = False"
| "truthy (CodesStr s) = (s \<noteq> [])"

fun codes_text :: "codes_arg \<Rightarrow> string" where
  "codes_text CodesDefault = []"
| "codes_text CodesFalse = []"
| "codes_text (CodesStr s) = s"

text \<open>The body of \<^verbatim>\<open>findID\<close>, without its cache.\<close>

definition findID_body ::
  "gazetteer \<Rightarrow> string \<Rightarrow> string \<Rightarrow> codes_arg \<Rightarrow> world \<Rightarrow> (py_error + result) \<times> world" where
  "findID_body gaz user placeName codes w =
     (if truthy codes then
        (case http_get gaz (codes_URL user placeName (codes_text codes)) w of
           (Inl e, w') \<Rightarrow> (Inl e, w')
         | (Inr data, w') \<Rightarrow>
             (case data of
                EmptyObject \<Rightarrow> (Inr (Id 0), w')
              | NoGeonames \<Rightarrow> (Inl (KeyError ''geonames''), w')
              | Geonames geodata \<Rightarrow>
                  (case geodata of
                     [] \<Rightarrow>
                       (case findID_baseline gaz user placeName w' of
                          (Inl e, w'') \<Rightarrow> (Inl e, w'')
                        | (Inr i, w'') \<Rightarrow> (Inr (Id i), w''))
                   | firstOption # _ \<Rightarrow>
                       (case geonameId firstOption of
                          None \<Rightarrow> (Inl (KeyError ''geonameId''), w')
                        | Some i \<Rightarrow> (Inr (Id i), w')))))
      else
        (case http_get gaz (country_URL user placeName) w of
           (Inl e, w') \<Rightarrow> (Inl e, w')
         | (Inr data, w') \<Rightarrow>
             (case data of
                EmptyObject \<Rightarrow> (Inr (IdCodes 0 []), w')
              | NoGeonames \<Rightarrow> (Inl (KeyError ''geonames''), w')
              | Geonames geodata \<Rightarrow>
                  (case geodata of
                     [] \<Rightarrow> (Inr (IdCodes 0 []), w')
                   | firstOption # _ \<Rightarrow>
                       (case fcode firstOption of
                          None \<Rightarrow> (Inl (KeyError ''fcode''), w')
                        | Some fc \<Rightarrow>
                            if fc = ''CONT'' then
                              (case geonameId firstOption of
                                 None \<Rightarrow> (Inl (KeyError ''geonameId''), w')
                               | Some i \<Rightarrow> (Inr (IdCodes i []), w'))
                            else (scan geodata, w'))))))"

definition findID ::
  "gazetteer \<Rightarrow> string \<Rightarrow> string \<Rightarrow> codes_arg \<Rightarrow> world \<Rightarrow> (py_error + result) \<times> world" where
  "findID gaz user placeName codes w =
     (case findID_cache w (placeName, codes) of
        Some v \<Rightarrow> (Inr v, w)
      | None \<Rightarrow>
          (case findID_body gaz user placeName codes w of
             (Inl e, w') \<Rightarrow> (Inl e, w')
           | (Inr v, w') \<Rightarrow>
               (Inr v, w'\<lparr>findID_cache := (findID_cache w')((placeName, codes) \<mapsto> v)\<rparr>)))"

section \<open>The country bias\<close>

text \<open>
  \<^verbatim>\<open>set(codesList)\<close> is iterated by \<^verbatim>\<open>for code in codesSet\<close>, in an order that Python
  leaves to the implementation (for strings it changes with the hash seed of the
  process and, on a collision, with the order of insertion). The order is a
  parameter: \<open>set_order codesList\<close> lists the elements of the set as the loop meets
  them, so its length is \<^verbatim>\<open>len(codesSet)\<close>. The \<^verbatim>\<open>return\<close> stands inside the loop,
  which therefore ends in its first round.
\<close>

definition makeString :: "(string list \<Rightarrow> string list) \<Rightarrow> string list \<Rightarrow> py_error + string" where
  "makeString set_order codesList =
     (case set_order codesList of
        [] \<Rightarrow> Inr ''&countryBias=NL''
      | [_] \<Rightarrow>
          (case codesList of
             [] \<Rightarrow> Inl IndexError
           | c # _ \<Rightarrow> Inr (''&countryBias='' @ c))
      | code # _ # _ \<Rightarrow> Inr (''&country='' @ code))"

section \<open>Processing one article\<close>

definition with_predID :: "mention \<Rightarrow> int \<Rightarrow> row" where
  "with_predID m p =
     \<lparr>articleID = articleID m, toponym = toponym m, geoID = geoID m, isTitle = isTitle m,
      predID = p\<rparr>"

text \<open>
  \<^verbatim>\<open>processedData["predID"] = 0\<close> makes a column of 64-bit integers. What
  \<^verbatim>\<open>processedData.at[index, "predID"] = predID\<close> leaves in the cell for an id outside that
  range depends on the version of pandas (an exception, or a column of another type).
  It is the parameter \<open>cell\<close>: the value the cell holds afterwards, or the exception. For
  an id within the range the cell holds the id, as with \<open>cell_exact\<close>.
\<close>

definition cell_exact :: "int \<Rightarrow> py_error + int" where
  "cell_exact p = Inr p"

text \<open>
  The first loop, over \<^verbatim>\<open>data.iterrows()\<close>: the pairs of an index and a row. The
  labels of the index are distinct (\<^verbatim>\<open>read_csv\<close> numbers the rows), so that a label
  stands for the position of its row in the article. Unpacking
  a bare id into \<^verbatim>\<open>predID, countryCode\<close> would raise \<^verbatim>\<open>TypeError\<close>; \<open>country\<close> is
  the list \<^verbatim>\<open>countryCode\<close>.
\<close>

fun phase1 ::
  "gazetteer \<Rightarrow> string \<Rightarrow> (int \<Rightarrow> py_error + int) \<Rightarrow> (nat \<times> mention) list \<Rightarrow> row list
     \<Rightarrow> string list \<Rightarrow> world \<Rightarrow> (py_error + row list \<times> string list) \<times> world" where
  "phase1 gaz user cell [] processedData codes w = (Inr (processedData, codes), w)"
| "phase1 gaz user cell ((index, r) # rest) processedData codes w =
     (case findID gaz user (toponym r) CodesDefault w of
        (Inl e, w') \<Rightarrow> (Inl e, w')
      | (Inr (Id _), w') \<Rightarrow> (Inl TypeError, w')
      | (Inr (IdCodes p country), w') \<Rightarrow>
          (case cell p of
             Inl e \<Rightarrow> (Inl e, w')
           | Inr v \<Rightarrow>
               phase1 gaz user cell rest
                 (processedData[index := (processedData ! index)\<lparr>predID := v\<rparr>])
                 (codes @ country) w'))"

text \<open>
  The second loop, over the rows selected by \<^verbatim>\<open>processedData["predID"]==0\<close>. The
  selection is made once, before the loop. A pair cannot be stored in the integer
  column; \<^verbatim>\<open>findID\<close> only returns one for a falsy \<^verbatim>\<open>codesURL\<close>.
\<close>

fun phase2 ::
  "gazetteer \<Rightarrow> string \<Rightarrow> (int \<Rightarrow> py_error + int) \<Rightarrow> string \<Rightarrow> (nat \<times> row) list \<Rightarrow> row list
     \<Rightarrow> world \<Rightarrow> (py_error + row list) \<times> world" where
  "phase2 gaz user cell codesURL [] processedData w = (Inr processedData, w)"
| "phase2 gaz user cell codesURL ((index, r) # rest) processedData w =
     (case findID gaz user (toponym r) (CodesStr codesURL) w of
        (Inl e, w') \<Rightarrow> (Inl e, w')
      | (Inr (IdCodes _ _), w') \<Rightarrow> (Inl TypeError, w')
      | (Inr (Id p), w') \<Rightarrow>
          (case cell p of
             Inl e \<Rightarrow> (Inl e, w')
           | Inr v \<Rightarrow>
               phase2 gaz user cell codesURL rest
                 (processedData[index := (processedData ! index)\<lparr>predID := v\<rparr>]) w'))"

definition unresolved_rows :: "row list \<Rightarrow> (nat \<times> row) list" where
  "unresolved_rows processedData = filter (\<lambda>(index, r). predID r = 0) (enumerate 0 processedData)"

text \<open>
  \<^verbatim>\<open>processArticle\<close>. The first line reads \<^verbatim>\<open>data['articleID'].iloc[0]\<close>, which raises
  \<^verbatim>\<open>IndexError\<close> on an empty table.
\<close>

definition processArticle ::
  "gazetteer \<Rightarrow> string \<Rightarrow> (string list \<Rightarrow> string list) \<Rightarrow> (int \<Rightarrow> py_error + int)
     \<Rightarrow> mention list \<Rightarrow> world \<Rightarrow> (py_error + row list) \<times> world" where
  "processArticle gaz user set_order cell data w =
     (if data = [] then (Inl IndexError, w)
      else
        (case phase1 gaz user cell (enumerate 0 data) (map (\<lambda>m. with_predID m 0) data) [] w of
           (Inl e, w1) \<Rightarrow> (Inl e, w1)
         | (Inr (processedData, codes), w1) \<Rightarrow>
             (case makeString set_order codes of
                Inl e \<Rightarrow> (Inl e, w1)
              | Inr codesURL \<Rightarrow>
                  phase2 gaz user cell codesURL (unresolved_rows processedData)
                    processedData w1)))"

section \<open>Scoring\<close>

text \<open>
  The loop of \<^verbatim>\<open>agreement\<close>, with the two counters \<^verbatim>\<open>totalCorrect\<close> and
  \<^verbatim>\<open>notGuessed\<close> as accumulators. The \<^verbatim>\<open>elif\<close> is only reached when the ids differ.
\<close>

fun tally :: "row list \<Rightarrow> nat \<Rightarrow> nat \<Rightarrow> nat \<times> nat" where
  "tally [] totalCorrect notGuessed = (totalCorrect, notGuessed)"
| "tally (r # rest) totalCorrect notGuessed =
     (if geoID r = predID r then tally rest (totalCorrect + 1) notGuessed
      else if predID r = 0 then tally rest totalCorrect (notGuessed + 1)
      else tally rest totalCorrect notGuessed)"

subsection \<open>Python floats\<close>

text \<open>
  A Python float is an IEEE 754 double. A finite double is a rational number, and the
  model keeps it as that number. Every operation of the program on floats returns the
  double nearest to the exact result, a tie going to the even significand;
  \<open>round_double\<close> is that rounding, to 53 significant bits. The range of the exponent
  is not bounded in the model: the numbers of \<^verbatim>\<open>agreement\<close> lie between 0 and 2, and
  the positive ones are not below one over the square of the number of rows, so that a
  table of fewer than \<open>2 ^ 500\<close> rows never leaves the normal range of a double.
\<close>

function bit_length :: "int \<Rightarrow> nat" where
  "bit_length n = (if n \<le> 0 then 0 else Suc (bit_length (n div 2)))"
  by pat_completeness auto
termination
  by (relation "measure nat") auto

declare bit_length.simps [simp del]

text \<open>For a positive \<open>x\<close>, \<open>binade x\<close> is the \<open>k\<close> with \<open>2 ^ k \<le> x < 2 ^ (k + 1)\<close>.\<close>

definition binade :: "rat \<Rightarrow> int" where
  "binade x =
     (if 1 \<le> x then int (bit_length \<lfloor>x\<rfloor>) - 1
      else let b = int (bit_length \<lfloor>1 / x\<rfloor>)
           in if x * 2 powi (b - 1) = 1 then 1 - b else - b)"

definition round_half_even :: "rat \<Rightarrow> int" where
  "round_half_even y =
     (let f = \<lfloor>y\<rfloor>; d = y - of_int f
      in if d < 1 / 2 then f
         else if 1 / 2 < d then f + 1
         else if even f then f else f + 1)"

definition round_double :: "rat \<Rightarrow> rat" where
  "round_double x =
     (if x = 0 then 0
      else let e = binade \<bar>x\<bar> - 52
           in of_int (round_half_even (x / 2 powi e)) * 2 powi e)"

text \<open>
  \<^verbatim>\<open>a / b\<close> on two integers and on two floats, \<^verbatim>\<open>a * b\<close> and \<^verbatim>\<open>a + b\<close> on floats. A
  division by zero raises \<^verbatim>\<open>ZeroDivisionError\<close>.
\<close>

definition int_truediv :: "int \<Rightarrow> int \<Rightarrow> py_error + rat" where
  "int_truediv a b =
     (if b = 0 then Inl ZeroDivisionError else Inr (round_double (of_int a / of_int b)))"

definition float_truediv :: "rat \<Rightarrow> rat \<Rightarrow> py_error + rat" where
  "float_truediv a b = (if b = 0 then Inl ZeroDivisionError else Inr (round_double (a / b)))"

definition float_mul :: "rat \<Rightarrow> rat \<Rightarrow> rat" where
  "float_mul a b = round_double (a * b)"

definition float_add :: "rat \<Rightarrow> rat \<Rightarrow> rat" where
  "float_add a b = round_double (a + b)"

subsection \<open>The metrics\<close>

record metrics =
  total :: nat
  precision :: rat
  recall :: rat
  f1 :: rat

text \<open>
  \<^verbatim>\<open>agreement\<close> prints the four numbers; the model returns them. The three divisions are
  in the order of the source, and the first that divides by zero ends the function;
  \<open>p\<close>, \<open>r\<close> and \<open>f\<close> are \<^verbatim>\<open>precision\<close>, \<^verbatim>\<open>recall\<close> and \<^verbatim>\<open>f1\<close>. In \<^verbatim>\<open>2 * precision\<close>
  the integer 2 becomes the float 2.
\<close>

definition agreement :: "row list \<Rightarrow> py_error + metrics" where
  "agreement df =
     (let total = int (length df);
          (totalCorrect, notGuessed) = tally df 0 0;
          totalGuessed = total - int notGuessed
      in case int_truediv (int totalCorrect) totalGuessed of
           Inl e \<Rightarrow> Inl e
         | Inr p \<Rightarrow>
             (case int_truediv (int totalCorrect) total of
                Inl e \<Rightarrow> Inl e
              | Inr r \<Rightarrow>
                  (case float_truediv (float_mul (float_mul 2 p) r) (float_add p r) of
                     Inl e \<Rightarrow> Inl e
                   | Inr f \<Rightarrow>
                       Inr \<lparr>total = length df, precision = p, recall = r, f1 = f\<rparr>)))"

section \<open>Notions of the specification\<close>

text \<open>The two counts of the scoring contract, as the code takes them.\<close>

definition correct_count :: "row list \<Rightarrow> nat" where
  "correct_count df = length (filter (\<lambda>r. geoID r = predID r) df)"

definition unresolved_count :: "row list \<Rightarrow> nat" where
  "unresolved_count df = length (filter (\<lambda>r. geoID r \<noteq> predID r \<and> predID r = 0) df)"

text \<open>A scored row with the given expected and predicted id.\<close>

definition scored :: "int \<Rightarrow> int \<Rightarrow> row" where
  "scored e p = \<lparr>articleID = ''a1'', toponym = ''x'', geoID = e, isTitle = False, predID = p\<rparr>"

text \<open>Ten scored rows: six correct, two without a guess, two wrong guesses.\<close>

definition df10 :: "row list" where
  "df10 = [scored 7 7, scored 7 7, scored 7 7, scored 7 7, scored 7 7, scored 7 7,
           scored 7 0, scored 7 0, scored 7 8, scored 7 8]"

text \<open>
  A candidate as the specification types it: the id and the feature code are always
  there, the country code may be missing. \<open>json_of\<close> is the entry of the response that
  carries it.
\<close>

record Candidate =
  cand_id :: int
  featureCode :: string
  cand_countryCode :: "string option"

definition json_of :: "Candidate \<Rightarrow> geoname" where
  "json_of c = \<lparr>geonameId = Some (cand_id c), fcode = Some (featureCode c),
               countryCode = cand_countryCode c\<rparr>"

text \<open>
  The country resolution in the words of the specification: no candidate gives
  \<open>(0, none)\<close>; a continent on top gives its id and no country code; otherwise the
  first candidate whose feature code begins with \<^verbatim>\<open>PCL\<close> gives its id and its country
  code if it has one; when none qualifies the result is \<open>(0, none)\<close>.
\<close>

definition resolveCountry_spec :: "Candidate list \<Rightarrow> result" where
  "resolveCountry_spec cands =
     (case cands of
        [] \<Rightarrow> IdCodes 0 []
      | topc # _ \<Rightarrow>
          if featureCode topc = ''CONT'' then IdCodes (cand_id topc) []
          else (case find (\<lambda>c. startswith (featureCode c) ''PCL'') cands of
                  None \<Rightarrow> IdCodes 0 []
                | Some c \<Rightarrow>
                    IdCodes (cand_id c)
                      (case cand_countryCode c of None \<Rightarrow> [] | Some cc \<Rightarrow> [cc])))"

text \<open>The state at the start of a run: nothing sent, both memo tables empty.\<close>

definition w0 :: world where
  "w0 = \<lparr>requests = [], baseline_cache = Map.empty, findID_cache = Map.empty\<rparr>"



text \<open>Three candidates and a small gazetteer that knows them, for user \<^verbatim>\<open>u\<close>.\<close>

definition nederland :: Candidate where
  "nederland = \<lparr>cand_id = 2750405, featureCode = ''PCLI'', cand_countryCode = Some ''NL''\<rparr>"

definition parijs :: Candidate where
  "parijs = \<lparr>cand_id = 2988507, featureCode = ''PPLC'', cand_countryCode = Some ''FR''\<rparr>"

definition berlijn :: Candidate where
  "berlijn = \<lparr>cand_id = 2950159, featureCode = ''PPLC'', cand_countryCode = Some ''DE''\<rparr>"

definition gaz_demo :: gazetteer where
  "gaz_demo n URL =
     (if URL = country_URL ''u'' ''Nederland'' then Inr (Geonames [json_of nederland])
      else if URL = country_URL ''u'' ''Parijs'' then Inr (Geonames [json_of parijs])
      else if URL = codes_URL ''u'' ''Parijs'' ''&countryBias=NL'' then Inr (Geonames [json_of parijs])
      else if URL = baseline_URL ''u'' ''Berlijn'' then Inr (Geonames [json_of berlijn])
      else Inr (Geonames []))"

text \<open>A gazetteer whose only candidate has no \<^verbatim>\<open>geonameId\<close>.\<close>

definition gaz_noid :: gazetteer where
  "gaz_noid n URL =
     Inr (Geonames [\<lparr>geonameId = None, fcode = Some ''PPLC'', countryCode = Some ''FR''\<rparr>])"






text \<open>
  An article with three mentions, its rows after the first phase and after the second.
\<close>

definition demo_data :: "mention list" where
  "demo_data =
     [\<lparr>articleID = ''a1'', toponym = ''Nederland'', geoID = 2750405, isTitle = True\<rparr>,
      \<lparr>articleID = ''a1'', toponym = ''Parijs'', geoID = 2988507, isTitle = False\<rparr>,
      \<lparr>articleID = ''a1'', toponym = ''Atlantis'', geoID = 42, isTitle = False\<rparr>]"

definition demo_pd1 :: "row list" where
  "demo_pd1 =
     [\<lparr>articleID = ''a1'', toponym = ''Nederland'', geoID = 2750405, isTitle = True, predID = 2750405\<rparr>,
      \<lparr>articleID = ''a1'', toponym = ''Parijs'', geoID = 2988507, isTitle = False, predID = 0\<rparr>,
      \<lparr>articleID = ''a1'', toponym = ''Atlantis'', geoID = 42, isTitle = False, predID = 0\<rparr>]"

definition demo_out :: "row list" where
  "demo_out =
     [\<lparr>articleID = ''a1'', toponym = ''Nederland'', geoID = 2750405, isTitle = True, predID = 2750405\<rparr>,
      \<lparr>articleID = ''a1'', toponym = ''Parijs'', geoID = 2988507, isTitle = False, predID = 2988507\<rparr>,
      \<lparr>articleID = ''a1'', toponym = ''Atlantis'', geoID = 42, isTitle = False, predID = 0\<rparr>]"

section \<open>Properties of the float rounding\<close>

lemma bit_length_bounds: "0 < n \<Longrightarrow> 2 ^ (bit_length n - 1) \<le> n \<and> n < 2 ^ bit_length n"
proof (induction n rule: bit_length.induct)
  case (1 n)
  show ?case
  proof (cases "n div 2 \<le> 0")
    case True
    with "1.prems" have "n = 1" by linarith
    then show ?thesis by (simp add: bit_length.simps)
  next
    case False
    with "1.IH" "1.prems" have ih: "2 ^ (bit_length (n div 2) - 1) \<le> n div 2" "n div 2 < 2 ^ bit_length (n div 2)"
      by simp_all
    have b: "bit_length n = Suc (bit_length (n div 2))"
      using "1.prems" by (subst bit_length.simps) simp
    have pos: "0 < bit_length (n div 2)"
      using False by (subst bit_length.simps) simp
    then have e: "(2::int) ^ bit_length (n div 2) = 2 * 2 ^ (bit_length (n div 2) - 1)"
      by (cases "bit_length (n div 2)") simp_all
    have l: "2 * 2 ^ (bit_length (n div 2) - 1) \<le> n"
      using ih(1) by linarith
    have u: "n < 2 * 2 ^ bit_length (n div 2)"
      using ih(2) by linarith
    from l u show ?thesis by (simp add: b e)
  qed
qed


lemma bit_length_pos: "0 < n \<Longrightarrow> 0 < bit_length n"
  by (subst bit_length.simps) simp

lemma binade_bounds:
  assumes "0 < x"
  shows "2 powi binade x \<le> x \<and> x < 2 powi (binade x + 1)"
proof (cases "1 \<le> x")
  case True
  define n where "n = \<lfloor>x\<rfloor>"
  have n: "0 < n" using True by (simp add: n_def)
  have k: "binade x = int (bit_length n) - 1"
    using True by (simp add: binade_def n_def)
  from bit_length_pos [OF n] have p: "int (bit_length n) - 1 = int (bit_length n - 1)"
    by simp
  from bit_length_bounds [OF n] have lo: "2 ^ (bit_length n - 1) \<le> n" and hi: "n < 2 ^ bit_length n"
    by simp_all
  have "(2::rat) ^ (bit_length n - 1) = of_int (2 ^ (bit_length n - 1))" by simp
  also have "\<dots> \<le> of_int n" using lo by (simp only: of_int_le_iff)
  also have "\<dots> \<le> x" by (simp add: n_def)
  finally have a: "2 powi binade x \<le> x"
    by (simp add: k p power_int_of_nat del: of_nat_diff)
  from hi have "n + 1 \<le> 2 ^ bit_length n" by simp
  then have "(of_int (n + 1) :: rat) \<le> of_int (2 ^ bit_length n)" by (simp only: of_int_le_iff)
  moreover have "x < of_int (n + 1)" using floor_correct [of x] by (simp add: n_def)
  ultimately have "x < 2 ^ bit_length n" by simp
  then have b: "x < 2 powi (binade x + 1)"
    by (simp add: k power_int_of_nat)
  from a b show ?thesis ..
next
  case False
  define n where "n = \<lfloor>1 / x\<rfloor>"
  define b where "b = int (bit_length n)"
  from False assms have gt: "1 < 1 / x" by simp
  then have n: "0 < n" by (simp add: n_def)
  from bit_length_pos [OF n] have bp: "1 \<le> b" by (simp add: b_def)
  from bit_length_bounds [OF n] have lo: "2 ^ (bit_length n - 1) \<le> n" and hi: "n < 2 ^ bit_length n"
    by simp_all
  have lo': "2 powi (b - 1) \<le> 1 / x"
  proof -
    have "(2::rat) powi (b - 1) = 2 ^ (bit_length n - 1)"
      using bit_length_pos [OF n] by (simp add: b_def power_int_def nat_diff_distrib)
    also have "\<dots> = of_int (2 ^ (bit_length n - 1))" by simp
    also have "\<dots> \<le> of_int n" using lo by (simp only: of_int_le_iff)
    also have "\<dots> \<le> 1 / x" by (simp add: n_def)
    finally show ?thesis .
  qed
  have hi': "1 / x < 2 powi b"
  proof -
    from hi have "n + 1 \<le> 2 ^ bit_length n" by simp
    then have "(of_int (n + 1) :: rat) \<le> of_int (2 ^ bit_length n)" by (simp only: of_int_le_iff)
    moreover have "1 / x < of_int (n + 1)" using floor_correct [of "1 / x"] by (simp add: n_def)
    ultimately show ?thesis by (simp add: b_def power_int_of_nat)
  qed
  have pos: "\<And>k. (0::rat) < 2 powi k" by (simp add: zero_less_power_int)
  show ?thesis
  proof (cases "x * 2 powi (b - 1) = 1")
    case True
    then have k: "binade x = 1 - b"
      using False by (simp add: binade_def n_def b_def Let_def)
    from True have x: "x = 2 powi (1 - b)"
      using pos [of "b - 1"] by (simp add: power_int_diff field_simps)
    have "(2::rat) powi (1 - b) < 2 powi (1 - b + 1)"
      by (rule power_int_strict_increasing) simp_all
    with x show ?thesis unfolding k by simp
  next
    case ne: False
    then have k: "binade x = - b"
      using False by (simp add: binade_def n_def b_def Let_def)
    from hi' assms pos [of b] have "1 < x * 2 powi b" by (simp add: field_simps)
    then have a: "2 powi (- b) < x"
      using pos [of b] by (simp add: power_int_minus field_simps)
    from lo' ne assms pos [of "b - 1"] have "x * 2 powi (b - 1) < 1"
      by (simp add: field_simps) 
    then have "x < 2 powi (1 - b)"
      using pos [of "b - 1"] by (simp add: power_int_diff field_simps)
    with a show ?thesis by (simp add: k)
  qed
qed

lemma round_half_even_ge: "\<lfloor>y\<rfloor> \<le> round_half_even y"
  by (simp add: round_half_even_def Let_def)

lemma round_double_pos:
  assumes "0 < x"
  shows "0 < round_double x"
proof -
  define e where "e = binade x - 52"
  have pos: "(0::rat) < 2 powi e" by (simp add: zero_less_power_int)
  from binade_bounds [OF assms] have "2 powi (e + 52) \<le> x" by (simp add: e_def)
  then have "2 powi e * 2 ^ 52 \<le> x" by (simp add: power_int_add)
  then have "2 ^ 52 \<le> x / 2 powi e" using pos by (simp add: field_simps)
  moreover have "(1::rat) \<le> 2 ^ 52" by simp
  ultimately have "(1::rat) \<le> x / 2 powi e" by (rule order_trans [rotated])
  then have "1 \<le> \<lfloor>x / 2 powi e\<rfloor>" by simp
  with round_half_even_ge [of "x / 2 powi e"] have "0 < round_half_even (x / 2 powi e)" by linarith
  then have "(0::rat) < of_int (round_half_even (x / 2 powi e)) * 2 powi e"
    using pos by simp
  then show ?thesis
    using assms by (simp add: round_double_def e_def Let_def)
qed

lemma round_double_0: "round_double 0 = 0"
  by (simp add: round_double_def)

section \<open>Properties of the scoring\<close>

lemma tally_acc:
  "tally df c n =
     (c + length (filter (\<lambda>r. geoID r = predID r) df),
      n + length (filter (\<lambda>r. geoID r \<noteq> predID r \<and> predID r = 0) df))"
  by (induction df arbitrary: c n) simp_all

lemma tally_spec: "tally df 0 0 = (correct_count df, unresolved_count df)"
  by (simp add: tally_acc correct_count_def unresolved_count_def)

lemma counts_le: "correct_count df + unresolved_count df \<le> length df"
  unfolding correct_count_def unresolved_count_def
  by (induction df) simp_all

text \<open>\<^verbatim>\<open>agreement\<close> with the two counters replaced by the counts over the table.\<close>

lemma agreement_steps:
  "agreement df =
     (case int_truediv (int (correct_count df)) (int (length df) - int (unresolved_count df)) of
        Inl e \<Rightarrow> Inl e
      | Inr p \<Rightarrow>
          (case int_truediv (int (correct_count df)) (int (length df)) of
             Inl e \<Rightarrow> Inl e
           | Inr r \<Rightarrow>
               (case float_truediv (float_mul (float_mul 2 p) r) (float_add p r) of
                  Inl e \<Rightarrow> Inl e
                | Inr f \<Rightarrow> Inr \<lparr>total = length df, precision = p, recall = r, f1 = f\<rparr>)))"
  by (simp add: agreement_def tally_spec Let_def)

text \<open>What \<^verbatim>\<open>agreement\<close> returns: it raises exactly when no row is correct.\<close>

lemma agreement_char:
  "agreement df =
     (if correct_count df = 0 then Inl ZeroDivisionError
      else let p = round_double (of_nat (correct_count df)
                     / of_int (int (length df) - int (unresolved_count df)));
               r = round_double (of_nat (correct_count df) / of_nat (length df))
           in Inr \<lparr>total = length df, precision = p, recall = r,
                   f1 = round_double (round_double (round_double (2 * p) * r)
                          / round_double (p + r))\<rparr>)"
proof (cases "correct_count df = 0")
  case True
  then show ?thesis
    by (simp add: agreement_steps int_truediv_def float_truediv_def float_add_def float_mul_def
        round_double_0)
next
  case False
  with counts_le [of df] have g: "0 < int (length df) - int (unresolved_count df)" and t: "0 < length df"
    by linarith+
  define p where "p = round_double (of_nat (correct_count df)
                     / of_int (int (length df) - int (unresolved_count df)))"
  define r where "r = round_double (of_nat (correct_count df) / of_nat (length df))"
  have "0 < (of_nat (correct_count df) :: rat) / of_int (int (length df) - int (unresolved_count df))"
    using False g by simp
  then have p: "0 < p" unfolding p_def by (rule round_double_pos)
  have "0 < (of_nat (correct_count df) :: rat) / of_nat (length df)"
    using False t by simp
  then have r: "0 < r" unfolding r_def by (rule round_double_pos)
  from p r have "0 < p + r" by simp
  then have s: "round_double (p + r) \<noteq> 0"
    using round_double_pos [of "p + r"] by simp
  have g': "int (length df) - int (unresolved_count df) \<noteq> 0" using g by simp
  have i1: "int_truediv (int (correct_count df)) (int (length df) - int (unresolved_count df)) = Inr p"
    using g' by (simp add: int_truediv_def p_def)
  have i2: "int_truediv (int (correct_count df)) (int (length df)) = Inr r"
    using t by (simp add: int_truediv_def r_def)
  have i3: "float_truediv (float_mul (float_mul 2 p) r) (float_add p r) =
      Inr (round_double (round_double (round_double (2 * p) * r) / round_double (p + r)))"
    using s by (simp add: float_truediv_def float_mul_def float_add_def)
  have "agreement df =
      Inr \<lparr>total = length df, precision = p, recall = r,
           f1 = round_double (round_double (round_double (2 * p) * r) / round_double (p + r))\<rparr>"
    by (simp add: agreement_steps i1 i2 i3)
  then show ?thesis
    using False by (simp add: Let_def p_def r_def)
qed

lemma counts_df10: "length df10 = 10" "correct_count df10 = 6" "unresolved_count df10 = 2"
  by (simp_all add: df10_def correct_count_def unresolved_count_def scored_def)

text \<open>The float operations on the numbers of the example, evaluated.\<close>

lemma example_precision: "int_truediv 6 8 = Inr (3 / 4)"
  by code_simp

lemma example_recall: "int_truediv 6 10 = Inr (5404319552844595 / 9007199254740992)"
  by code_simp

lemma example_f1:
  "float_truediv (float_mul (float_mul 2 (3 / 4)) (5404319552844595 / 9007199254740992))
     (float_add (3 / 4) (5404319552844595 / 9007199254740992)) =
   Inr (1501199875790165 / 2251799813685248)"
  by code_simp

lemma round_double_1: "round_double 1 = 1"
  by code_simp

lemma round_double_2: "round_double 2 = 2"
  by code_simp

lemma round_double_half: "round_double (1 / 2) = 1 / 2"
  by code_simp

lemma round_double_3_2: "round_double (3 / 2) = 3 / 2"
  by code_simp

lemma round_double_2_3: "round_double (2 / 3) = 6004799503160661 / 9007199254740992"
  by code_simp


text \<open>
  C8, as amended. For every scored table, \<^verbatim>\<open>agreement\<close> takes correct as the number of
  rows whose predicted id equals the expected id, unresolved as the number of rows whose
  predicted id is 0 and differs from the expected id, guessed as the total minus
  unresolved, precision as correct / guessed, recall as correct / total and f1 as
  \<open>2 * precision * recall / (precision + recall)\<close>, each division being Python's, on
  floats. With 10 rows, 6 correct and 2 unresolved, precision is 0.75, recall is the
  double nearest to 0.6 and f1 is the double 0.6666666666666665, within 0.001 of 0.667.
\<close>

theorem agreement_metrics:
  "agreement df =
     (case int_truediv (int (correct_count df)) (int (length df) - int (unresolved_count df)) of
        Inl e \<Rightarrow> Inl e
      | Inr p \<Rightarrow>
          (case int_truediv (int (correct_count df)) (int (length df)) of
             Inl e \<Rightarrow> Inl e
           | Inr r \<Rightarrow>
               (case float_truediv (float_mul (float_mul 2 p) r) (float_add p r) of
                  Inl e \<Rightarrow> Inl e
                | Inr f \<Rightarrow> Inr \<lparr>total = length df, precision = p, recall = r, f1 = f\<rparr>)))
   \<and> (length df = 10 \<and> correct_count df = 6 \<and> unresolved_count df = 2 \<longrightarrow>
        (\<exists>m. agreement df = Inr m \<and> total m = 10 \<and> precision m = 3 / 4
           \<and> recall m = 5404319552844595 / 9007199254740992
           \<and> \<bar>recall m - 3 / 5\<bar> < 1 / 10 ^ 16
           \<and> f1 m = 1501199875790165 / 2251799813685248
           \<and> \<bar>f1 m - 667 / 1000\<bar> < 1 / 1000))"
proof (intro conjI impI)
  show "agreement df =
     (case int_truediv (int (correct_count df)) (int (length df) - int (unresolved_count df)) of
        Inl e \<Rightarrow> Inl e
      | Inr p \<Rightarrow>
          (case int_truediv (int (correct_count df)) (int (length df)) of
             Inl e \<Rightarrow> Inl e
           | Inr r \<Rightarrow>
               (case float_truediv (float_mul (float_mul 2 p) r) (float_add p r) of
                  Inl e \<Rightarrow> Inl e
                | Inr f \<Rightarrow> Inr \<lparr>total = length df, precision = p, recall = r, f1 = f\<rparr>)))"
    by (rule agreement_steps)
next
  assume a: "length df = 10 \<and> correct_count df = 6 \<and> unresolved_count df = 2"
  have "agreement df =
      Inr \<lparr>total = 10, precision = 3 / 4, recall = 5404319552844595 / 9007199254740992,
           f1 = 1501199875790165 / 2251799813685248\<rparr>"
    using a example_precision example_recall example_f1 by (simp add: agreement_steps)
  then show "\<exists>m. agreement df = Inr m \<and> total m = 10 \<and> precision m = 3 / 4
           \<and> recall m = 5404319552844595 / 9007199254740992
           \<and> \<bar>recall m - 3 / 5\<bar> < 1 / 10 ^ 16
           \<and> f1 m = 1501199875790165 / 2251799813685248
           \<and> \<bar>f1 m - 667 / 1000\<bar> < 1 / 1000"
    by simp
qed

text \<open>The ten rows \<open>df10\<close> have these counts and these metrics.\<close>

theorem agreement_metrics_witness:
  "length df10 = 10 \<and> correct_count df10 = 6 \<and> unresolved_count df10 = 2
   \<and> (\<exists>m. agreement df10 = Inr m \<and> total m = 10 \<and> precision m = 3 / 4
           \<and> recall m = 5404319552844595 / 9007199254740992
           \<and> \<bar>recall m - 3 / 5\<bar> < 1 / 10 ^ 16
           \<and> f1 m = 1501199875790165 / 2251799813685248
           \<and> \<bar>f1 m - 667 / 1000\<bar> < 1 / 1000)"
  using agreement_metrics [of df10] counts_df10 by blast

text \<open>
  C8 as stated fails: for the single row with expected id 0 and predicted id 0 the
  unresolved tally is 0, not the number of rows with predicted id 0, and the precision
  is 1, where a guessed count of \<open>1 - 1 = 0\<close> would leave it undefined.
\<close>

theorem agreement_unresolved_counterexample:
  "snd (tally [scored 0 0] 0 0) \<noteq> length (filter (\<lambda>r. predID r = 0) [scored 0 0])
   \<and> agreement [scored 0 0] = Inr \<lparr>total = 1, precision = 1, recall = 1, f1 = 1\<rparr>"
  by (simp add: agreement_char correct_count_def unresolved_count_def scored_def
      round_double_1 round_double_2)

text \<open>
  C10. The equality test of \<^verbatim>\<open>agreement\<close> comes before the test for 0: the unresolved
  tally counts the rows with predicted id 0 whose expected id differs, and the guessed
  count of every table is its length minus that tally. A row whose two ids are both 0
  adds one to the correct tally and nothing to the unresolved one, so it is among the
  guessed rows of any table: in front of \<open>df\<close> it adds one to the numerator and one to
  the guessed count of the precision. Alone, it scores precision 1.
\<close>

theorem agreement_equal_ids_first:
  "tally df 0 0 =
     (length (filter (\<lambda>r. geoID r = predID r) df),
      length (filter (\<lambda>r. geoID r \<noteq> predID r \<and> predID r = 0) df))
   \<and> (geoID r = 0 \<and> predID r = 0 \<longrightarrow> tally (r # df) c n = tally df (c + 1) n)
   \<and> (geoID r = 0 \<and> predID r = 0 \<longrightarrow>
        agreement [r] = Inr \<lparr>total = 1, precision = 1, recall = 1, f1 = 1\<rparr>)
   \<and> agreement df =
       (if length (filter (\<lambda>r. geoID r = predID r) df) = 0 then Inl ZeroDivisionError
        else let p = round_double (of_nat (length (filter (\<lambda>r. geoID r = predID r) df))
                       / of_int (int (length df)
                           - int (length (filter (\<lambda>r. geoID r \<noteq> predID r \<and> predID r = 0) df))));
                 q = round_double (of_nat (length (filter (\<lambda>r. geoID r = predID r) df))
                       / of_nat (length df))
             in Inr \<lparr>total = length df, precision = p, recall = q,
                     f1 = round_double (round_double (round_double (2 * p) * q)
                            / round_double (p + q))\<rparr>)
   \<and> (geoID r = 0 \<and> predID r = 0 \<longrightarrow>
        agreement (r # df) =
          (let p = round_double (of_nat (1 + length (filter (\<lambda>r. geoID r = predID r) df))
                     / of_int (int (1 + length df)
                         - int (length (filter (\<lambda>r. geoID r \<noteq> predID r \<and> predID r = 0) df))));
               q = round_double (of_nat (1 + length (filter (\<lambda>r. geoID r = predID r) df))
                     / of_nat (1 + length df))
           in Inr \<lparr>total = 1 + length df, precision = p, recall = q,
                   f1 = round_double (round_double (round_double (2 * p) * q)
                          / round_double (p + q))\<rparr>))"
proof (intro conjI impI)
  show "tally df 0 0 =
     (length (filter (\<lambda>r. geoID r = predID r) df),
      length (filter (\<lambda>r. geoID r \<noteq> predID r \<and> predID r = 0) df))"
    by (simp add: tally_acc)
next
  assume "geoID r = 0 \<and> predID r = 0"
  then show "tally (r # df) c n = tally df (c + 1) n" by simp
next
  assume "geoID r = 0 \<and> predID r = 0"
  then show "agreement [r] = Inr \<lparr>total = 1, precision = 1, recall = 1, f1 = 1\<rparr>"
    by (simp add: agreement_char correct_count_def unresolved_count_def
        round_double_1 round_double_2)
next
  show "agreement df =
       (if length (filter (\<lambda>r. geoID r = predID r) df) = 0 then Inl ZeroDivisionError
        else let p = round_double (of_nat (length (filter (\<lambda>r. geoID r = predID r) df))
                       / of_int (int (length df)
                           - int (length (filter (\<lambda>r. geoID r \<noteq> predID r \<and> predID r = 0) df))));
                 q = round_double (of_nat (length (filter (\<lambda>r. geoID r = predID r) df))
                       / of_nat (length df))
             in Inr \<lparr>total = length df, precision = p, recall = q,
                     f1 = round_double (round_double (round_double (2 * p) * q)
                            / round_double (p + q))\<rparr>)"
    using agreement_char [of df] unfolding correct_count_def unresolved_count_def .
next
  assume z: "geoID r = 0 \<and> predID r = 0"
  then have c: "correct_count (r # df) = 1 + length (filter (\<lambda>r. geoID r = predID r) df)"
    and u: "unresolved_count (r # df) = length (filter (\<lambda>r. geoID r \<noteq> predID r \<and> predID r = 0) df)"
    by (simp_all add: correct_count_def unresolved_count_def)
  have l: "length (r # df) = 1 + length df" by simp
  show "agreement (r # df) =
          (let p = round_double (of_nat (1 + length (filter (\<lambda>r. geoID r = predID r) df))
                     / of_int (int (1 + length df)
                         - int (length (filter (\<lambda>r. geoID r \<noteq> predID r \<and> predID r = 0) df))));
               q = round_double (of_nat (1 + length (filter (\<lambda>r. geoID r = predID r) df))
                     / of_nat (1 + length df))
           in Inr \<lparr>total = 1 + length df, precision = p, recall = q,
                   f1 = round_double (round_double (round_double (2 * p) * q)
                          / round_double (p + q))\<rparr>)"
    using agreement_char [of "r # df"] unfolding c u l by simp
qed

text \<open>A row with both ids 0, alone and in front of an unresolved row.\<close>

theorem agreement_equal_ids_first_witness:
  "geoID (scored 0 0) = 0 \<and> predID (scored 0 0) = 0
   \<and> tally [scored 0 0, scored 4 0] 0 0 = tally [scored 4 0] 1 0
   \<and> tally [scored 0 0, scored 4 0] 0 0 = (1, 1)
   \<and> agreement [scored 0 0] = Inr \<lparr>total = 1, precision = 1, recall = 1, f1 = 1\<rparr>
   \<and> agreement [scored 0 0, scored 4 0] =
       Inr \<lparr>total = 2, precision = 1, recall = 1 / 2,
            f1 = 6004799503160661 / 9007199254740992\<rparr>"
  using agreement_equal_ids_first [of "[scored 4 0]" "scored 0 0" 0 0]
    agreement_equal_ids_first [of "[scored 0 0, scored 4 0]" "scored 0 0" 0 0]
  by (simp add: scored_def Let_def round_double_1 round_double_2 round_double_half
      round_double_3_2 round_double_2_3)

text \<open>
  C1 as stated fails: with one row, expected id 5 and predicted id 0, nothing is guessed
  and \<^verbatim>\<open>agreement\<close> ends in the exception \<^verbatim>\<open>ZeroDivisionError\<close>.
\<close>

theorem agreement_no_guess_counterexample:
  "agreement [scored 5 0] = Inl ZeroDivisionError"
  by (simp add: agreement_char correct_count_def scored_def)

text \<open>
  C1, as amended. When the guessed count of \<^verbatim>\<open>agreement\<close> is 0, in particular when every
  predicted id is 0 and every expected id is not, and more generally when no row is
  correct (precision + recall is 0 then), \<^verbatim>\<open>agreement\<close> raises \<^verbatim>\<open>ZeroDivisionError\<close>
  and reports no metric; it reports metrics exactly when some row is correct.
\<close>

theorem agreement_degenerate_raises:
  "(int (length df) - int (snd (tally df 0 0)) = 0 \<longrightarrow> agreement df = Inl ZeroDivisionError)
   \<and> ((\<forall>r \<in> set df. predID r = 0 \<and> geoID r \<noteq> 0) \<longrightarrow> agreement df = Inl ZeroDivisionError)
   \<and> (fst (tally df 0 0) = 0 \<longrightarrow> agreement df = Inl ZeroDivisionError)
   \<and> (fst (tally df 0 0) \<noteq> 0 \<longrightarrow> (\<exists>m. agreement df = Inr m))"
proof -
  have a: "correct_count df = 0" if "int (length df) - int (snd (tally df 0 0)) = 0"
    using that counts_le [of df] by (simp add: tally_spec)
  have b: "correct_count df = 0" if "\<forall>r \<in> set df. predID r = 0 \<and> geoID r \<noteq> 0"
    using that unfolding correct_count_def by (induction df) auto
  show ?thesis
    using a b by (auto simp: agreement_char tally_spec Let_def)
qed

text \<open>One row without a guess, and one correct row.\<close>

theorem agreement_degenerate_raises_witness:
  "int (length [scored 5 0]) - int (snd (tally [scored 5 0] 0 0)) = 0
   \<and> predID (scored 5 0) = 0 \<and> geoID (scored 5 0) \<noteq> 0
   \<and> fst (tally [scored 5 0] 0 0) = 0
   \<and> agreement [scored 5 0] = Inl ZeroDivisionError
   \<and> fst (tally [scored 5 5] 0 0) \<noteq> 0
   \<and> (\<exists>m. agreement [scored 5 5] = Inr m)"
  using agreement_degenerate_raises [of "[scored 5 0]"] agreement_degenerate_raises [of "[scored 5 5]"]
  by (simp add: scored_def)

section \<open>Properties of the country bias\<close>

text \<open>
  C5. Whatever the order in which the set of codes is iterated, \<^verbatim>\<open>makeString\<close> returns
  the default directive for \<^verbatim>\<open>NL\<close> when there is no code, the bias directive for the code
  when there is one distinct code, and for two or more distinct codes a restrict
  directive that carries one code of the set and no other.
\<close>

theorem makeString_directive:
  assumes d: "distinct (set_order codesList)" and s: "set (set_order codesList) = set codesList"
  shows "(set codesList = {} \<longrightarrow> makeString set_order codesList = Inr ''&countryBias=NL'')
    \<and> (set codesList = {c} \<longrightarrow> makeString set_order codesList = Inr (''&countryBias='' @ c))
    \<and> (2 \<le> card (set codesList) \<longrightarrow>
         (\<exists>code \<in> set codesList. makeString set_order codesList = Inr (''&country='' @ code)))"
proof (cases "set_order codesList")
  case Nil
  with s have e: "set codesList = {}" by simp
  have m: "makeString set_order codesList = Inr ''&countryBias=NL''"
    by (simp add: makeString_def Nil)
  from e have "set codesList \<noteq> {c}" and "\<not> 2 \<le> card (set codesList)" by simp_all
  with m show ?thesis by (intro conjI impI) simp_all
next
  case (Cons x rest)
  show ?thesis
  proof (cases rest)
    case Nil
    with Cons have o: "set_order codesList = [x]" by simp
    with s have e: "set codesList = {x}" by simp
    then obtain y ys where l: "codesList = y # ys" by (cases codesList) simp_all
    with e have "y \<in> {x}" by (metis list.set_intros(1))
    then have y: "y = x" by simp
    have m: "makeString set_order codesList = Inr (''&countryBias='' @ x)"
      by (simp add: makeString_def o) (simp add: l y)
    have n1: "set codesList \<noteq> {}" using e by simp
    have n2: "\<not> 2 \<le> card (set codesList)" using e by simp
    have n3: "set codesList = {c} \<longrightarrow> c = x" using e by (metis singleton_inject)
    from m n1 n2 n3 show ?thesis by (intro conjI impI) simp_all
  next
    case (Cons y zs)
    with \<open>set_order codesList = x # rest\<close> have o: "set_order codesList = x # y # zs" by simp
    with d have xy: "x \<noteq> y" by simp
    from o s have mem: "x \<in> set codesList" "y \<in> set codesList"
      by (metis list.set_intros(1), metis list.set_intros(1) list.set_intros(2))
    have m: "makeString set_order codesList = Inr (''&country='' @ x)"
      by (simp add: makeString_def o)
    have n1: "set codesList \<noteq> {}" by (metis mem(1) empty_iff)
    have n2: "set codesList \<noteq> {c}" by (metis mem xy singletonD)
    from m n1 n2 mem(1) show ?thesis by (intro conjI impI bexI [of _ x]) simp_all
  qed
qed

text \<open>
  C6, as amended. For two or more distinct codes, \<^verbatim>\<open>makeString\<close> returns the restrict
  directive for the code that comes first in the iteration of the set; two invocations
  whose sets are iterated in the same order return the same directive.
\<close>

theorem makeString_first_in_order:
  assumes "2 \<le> length (set_order xs)" and "set_order xs = set_order ys"
  shows "makeString set_order xs = Inr (''&country='' @ hd (set_order xs))
    \<and> makeString set_order ys = makeString set_order xs"
proof -
  from assms(1) obtain a b r where x: "set_order xs = a # b # r"
    by (cases "set_order xs"; cases "tl (set_order xs)") auto
  with assms(2) have y: "set_order ys = a # b # r" by simp
  show ?thesis by (simp add: makeString_def x y)
qed

lemma makeString_nonempty: "makeString set_order xs = Inr s \<Longrightarrow> s \<noteq> []"
  by (auto simp: makeString_def split: list.splits)


text \<open>\<^verbatim>\<open>makeString\<close> on small lists, with two iteration orders.\<close>

lemma makeString_examples:
  "makeString remdups [] = Inr ''&countryBias=NL''"
  "makeString remdups [''US'', ''US''] = Inr ''&countryBias=US''"
  "makeString remdups [''US'', ''FR''] = Inr ''&country=US''"
  "makeString remdups [''FR'', ''US''] = Inr ''&country=FR''"
  "makeString remdups [''US'', ''FR'', ''US''] = Inr ''&country=FR''"
  "makeString (\<lambda>xs. rev (remdups xs)) [''US'', ''FR''] = Inr ''&country=FR''"
  by (simp_all add: makeString_def)

text \<open>No code, one code twice, two codes; the set iterated in the order of insertion.\<close>

theorem makeString_directive_witness:
  "distinct (remdups ([] :: string list)) \<and> set (remdups []) = set ([] :: string list)
   \<and> makeString remdups [] = Inr ''&countryBias=NL''
   \<and> distinct (remdups [''US'', ''US'']) \<and> set (remdups [''US'', ''US'']) = set [''US'', ''US'']
   \<and> set [''US'', ''US''] = {''US''}
   \<and> makeString remdups [''US'', ''US''] = Inr ''&countryBias=US''
   \<and> distinct (remdups [''US'', ''FR'']) \<and> set (remdups [''US'', ''FR'']) = set [''US'', ''FR'']
   \<and> 2 \<le> card (set [''US'', ''FR''])
   \<and> makeString remdups [''US'', ''FR''] = Inr ''&country=US''"
proof -
  have c: "2 \<le> card (set [''US'', ''FR''])" by simp
  have s: "set [''US'', ''US''] = {''US''}" by simp
  from makeString_directive [of remdups "[]" "''US''"]
    makeString_directive [of remdups "[''US'', ''US'']" "''US''"]
    makeString_directive [of remdups "[''US'', ''FR'']" "''US''"] c s
  show ?thesis
    by (simp only: makeString_examples distinct_remdups set_remdups simp_thms)
qed

text \<open>
  C6 as stated fails: the code takes the first code that the iteration of the set
  yields. With the order of insertion, the lists \<^verbatim>\<open>["US", "FR"]\<close> and \<^verbatim>\<open>["FR", "US"]\<close>
  have the same set of codes and get different directives; and the same list gets
  different directives under two iteration orders, as under two hash seeds.
\<close>

theorem makeString_order_counterexample:
  "set [''US'', ''FR''] = set [''FR'', ''US'']
   \<and> makeString remdups [''US'', ''FR''] \<noteq> makeString remdups [''FR'', ''US'']
   \<and> makeString remdups [''US'', ''FR''] \<noteq> makeString (\<lambda>xs. rev (remdups xs)) [''US'', ''FR'']"
  by (simp add: makeString_examples insert_commute)

text \<open>Two lists whose sets are iterated in the same order.\<close>

theorem makeString_first_in_order_witness:
  "2 \<le> length (remdups [''US'', ''FR'', ''US'']) \<and> remdups [''US'', ''FR'', ''US''] = remdups [''FR'', ''US'']
   \<and> makeString remdups [''US'', ''FR'', ''US''] = Inr ''&country=FR''
   \<and> makeString remdups [''FR'', ''US''] = makeString remdups [''US'', ''FR'', ''US'']"
proof -
  have a: "2 \<le> length (remdups [''US'', ''FR'', ''US''])" by simp
  have b: "remdups [''US'', ''FR'', ''US''] = remdups [''FR'', ''US'']" by simp
  from makeString_first_in_order [where set_order = remdups and xs = "[''US'', ''FR'', ''US'']"
      and ys = "[''FR'', ''US'']", OF a b] a b show ?thesis
    by (simp add: makeString_examples)
qed

section \<open>Properties of the resolver\<close>

lemma json_of_simps:
  "geonameId (json_of c) = Some (cand_id c)"
  "fcode (json_of c) = Some (featureCode c)"
  "countryCode (json_of c) = cand_countryCode c"
  by (simp_all add: json_of_def)

lemma scan_json:
  "scan (map json_of cands) =
     Inr (case find (\<lambda>c. startswith (featureCode c) ''PCL'') cands of
            None \<Rightarrow> IdCodes 0 []
          | Some c \<Rightarrow> IdCodes (cand_id c) (case cand_countryCode c of None \<Rightarrow> [] | Some cc \<Rightarrow> [cc]))"
  by (induction cands) (auto simp: json_of_simps split: option.splits)

lemma findID_body_country:
  assumes "\<not> truthy c"
    and "gaz (length (requests w)) (country_URL user p) = Inr (Geonames (map json_of cands))"
  shows "findID_body gaz user p c w =
     (Inr (resolveCountry_spec cands), w\<lparr>requests := requests w @ [country_URL user p]\<rparr>)"
proof (cases cands)
  case Nil
  with assms show ?thesis
    by (simp add: findID_body_def http_get_def resolveCountry_spec_def)
next
  case (Cons topc rest)
  have sc: "scan (json_of topc # map json_of rest) =
     Inr (case find (\<lambda>c. startswith (featureCode c) ''PCL'') (topc # rest) of
            None \<Rightarrow> IdCodes 0 []
          | Some c \<Rightarrow> IdCodes (cand_id c) (case cand_countryCode c of None \<Rightarrow> [] | Some cc \<Rightarrow> [cc]))"
    using scan_json [of "topc # rest"] by (simp only: list.map)
  show ?thesis
    using assms Cons
    by (simp add: findID_body_def http_get_def resolveCountry_spec_def json_of_simps sc
        del: scan.simps find.simps)
qed

lemma findID_body_bias:
  assumes "truthy c"
    and "gaz (length (requests w)) (codes_URL user p (codes_text c)) = Inr (Geonames (map json_of cands))"
  shows "findID_body gaz user p c w =
     (case cands of
        [] \<Rightarrow>
          (case findID_baseline gaz user p (w\<lparr>requests := requests w @ [codes_URL user p (codes_text c)]\<rparr>) of
             (Inl e, w'') \<Rightarrow> (Inl e, w'')
           | (Inr i, w'') \<Rightarrow> (Inr (Id i), w''))
      | topc # _ \<Rightarrow>
          (Inr (Id (cand_id topc)), w\<lparr>requests := requests w @ [codes_URL user p (codes_text c)]\<rparr>))"
  using assms
  by (cases cands) (simp_all add: findID_body_def http_get_def json_of_simps)

text \<open>
  C3. A country resolution that is not answered from the cache sends one query, for at
  most 2 rows. When the service answers with candidates, the result is the one the
  specification words: the id of a continent on top, without country code; otherwise the
  id of the first candidate whose feature code begins with \<^verbatim>\<open>PCL\<close>, with its country code
  if present; and \<open>(0, none)\<close>, without error, when no candidate qualifies or there is no
  candidate at all.
\<close>

theorem findID_country_mode:
  assumes "findID_cache w (placeName, CodesDefault) = None"
    and "gaz (length (requests w)) (country_URL user placeName) = Inr (Geonames (map json_of cands))"
  shows "fst (findID gaz user placeName CodesDefault w) = Inr (resolveCountry_spec cands)
    \<and> requests (snd (findID gaz user placeName CodesDefault w)) =
        requests w @ [urlBase @ placeName @ ''&searchlang=nl&maxRows=2&username='' @ user]"
  using assms(1) findID_body_country [of CodesDefault gaz w user placeName cands] assms(2)
  by (simp add: findID_def country_URL_def)

text \<open>
  C4. A biased resolution that is not answered from the cache sends the biased query for
  one row. When the answer has no candidate, the result is that of \<^verbatim>\<open>findID_baseline\<close>
  on the same text, run in the state after the biased query; when it has a candidate,
  the result is the id of the first one.
\<close>

theorem findID_bias_fallback:
  assumes miss: "findID_cache w (placeName, CodesStr codes) = None" and ne: "codes \<noteq> []"
    and resp: "gaz (length (requests w)) (codes_URL user placeName codes) = Inr (Geonames (map json_of cands))"
  shows "fst (findID gaz user placeName (CodesStr codes) w) =
      (case cands of
         [] \<Rightarrow> map_sum id Id (fst (findID_baseline gaz user placeName
                  (w\<lparr>requests := requests w @ [codes_URL user placeName codes]\<rparr>)))
       | topc # _ \<Rightarrow> Inr (Id (cand_id topc)))"
proof -
  have b: "findID_body gaz user placeName (CodesStr codes) w =
     (case cands of
        [] \<Rightarrow>
          (case findID_baseline gaz user placeName (w\<lparr>requests := requests w @ [codes_URL user placeName codes]\<rparr>) of
             (Inl e, w'') \<Rightarrow> (Inl e, w'')
           | (Inr i, w'') \<Rightarrow> (Inr (Id i), w''))
      | topc # _ \<Rightarrow>
          (Inr (Id (cand_id topc)), w\<lparr>requests := requests w @ [codes_URL user placeName codes]\<rparr>))"
    by (rule findID_body_bias [of "CodesStr codes" gaz w user placeName cands,
          unfolded codes_text.simps truthy.simps, OF ne resp])
  show ?thesis
  proof (cases cands)
    case Nil
    obtain x w'' where f: "findID_baseline gaz user placeName
        (w\<lparr>requests := requests w @ [codes_URL user placeName codes]\<rparr>) = (x, w'')"
      by (cases "findID_baseline gaz user placeName
        (w\<lparr>requests := requests w @ [codes_URL user placeName codes]\<rparr>)")
    show ?thesis
      by (cases x) (simp_all add: findID_def miss b Nil f)
  next
    case (Cons topc rest)
    then show ?thesis
      by (simp add: findID_def miss b)
  qed
qed




text \<open>The URLs of the examples and the answers of the small gazetteer.\<close>

lemma demo_urls:
  "country_URL ''u'' ''Nederland'' = ''http://api.geonames.org/searchJSON?q=Nederland&searchlang=nl&maxRows=2&username=u''"
  "country_URL ''u'' ''Parijs'' = ''http://api.geonames.org/searchJSON?q=Parijs&searchlang=nl&maxRows=2&username=u''"
  "codes_URL ''u'' ''Parijs'' ''&countryBias=NL'' = ''http://api.geonames.org/searchJSON?q=Parijs&searchlang=nl&countryBias=NL&maxRows=1&username=u''"
  "codes_URL ''u'' ''Berlijn'' ''&countryBias=NL'' = ''http://api.geonames.org/searchJSON?q=Berlijn&searchlang=nl&countryBias=NL&maxRows=1&username=u''"
  "baseline_URL ''u'' ''Berlijn'' = ''http://api.geonames.org/searchJSON?q=Berlijn&maxRows=1&username=u''"
  by (simp_all add: country_URL_def codes_URL_def baseline_URL_def urlBase_def)

lemma gaz_demo_simps:
  "gaz_demo n (country_URL ''u'' ''Nederland'') = Inr (Geonames (map json_of [nederland]))"
  "gaz_demo n (codes_URL ''u'' ''Parijs'' ''&countryBias=NL'') = Inr (Geonames (map json_of [parijs]))"
  "gaz_demo n (codes_URL ''u'' ''Berlijn'' ''&countryBias=NL'') = Inr (Geonames (map json_of []))"
  "gaz_demo n (baseline_URL ''u'' ''Berlijn'') = Inr (Geonames [json_of berlijn])"
  by (simp_all add: gaz_demo_def demo_urls)

text \<open>The country \<^verbatim>\<open>Nederland\<close> resolves to its id and the code \<^verbatim>\<open>NL\<close>.\<close>

theorem findID_country_mode_witness:
  "findID_cache w0 (''Nederland'', CodesDefault) = None
   \<and> gaz_demo (length (requests w0)) (country_URL ''u'' ''Nederland'') =
       Inr (Geonames (map json_of [nederland]))
   \<and> fst (findID gaz_demo ''u'' ''Nederland'' CodesDefault w0) = Inr (IdCodes 2750405 [''NL''])
   \<and> requests (snd (findID gaz_demo ''u'' ''Nederland'' CodesDefault w0)) =
       [''http://api.geonames.org/searchJSON?q=Nederland&searchlang=nl&maxRows=2&username=u'']"
proof -
  have m: "findID_cache w0 (''Nederland'', CodesDefault) = None" by (simp add: w0_def)
  have g: "gaz_demo (length (requests w0)) (country_URL ''u'' ''Nederland'') =
       Inr (Geonames (map json_of [nederland]))" by (rule gaz_demo_simps)
  have r: "resolveCountry_spec [nederland] = IdCodes 2750405 [''NL'']"
    by (simp add: resolveCountry_spec_def nederland_def startswith_def)
  have q: "requests w0 = []" by (simp add: w0_def)
  from findID_country_mode [where gaz = gaz_demo and w = w0 and placeName = "''Nederland''"
      and user = "''u''" and cands = "[nederland]", OF m g] m g show ?thesis
    by (simp add: r q urlBase_def)
qed

lemma baseline_berlijn:
  "fst (findID_baseline gaz_demo ''u'' ''Berlijn''
          (w0\<lparr>requests := requests w0 @ [codes_URL ''u'' ''Berlijn'' ''&countryBias=NL'']\<rparr>)) =
   Inr 2950159"
  by (simp add: findID_baseline_def findID_baseline_body_def http_get_def w0_def gaz_demo_simps
      json_of_simps berlijn_def)

text \<open>\<^verbatim>\<open>Berlijn\<close> is found by the fallback only, \<^verbatim>\<open>Parijs\<close> by the biased query.\<close>

theorem findID_bias_fallback_witness:
  "findID_cache w0 (''Berlijn'', CodesStr ''&countryBias=NL'') = None
   \<and> ''&countryBias=NL'' \<noteq> []
   \<and> gaz_demo (length (requests w0)) (codes_URL ''u'' ''Berlijn'' ''&countryBias=NL'') =
       Inr (Geonames (map json_of []))
   \<and> fst (findID gaz_demo ''u'' ''Berlijn'' (CodesStr ''&countryBias=NL'') w0) = Inr (Id 2950159)
   \<and> findID_cache w0 (''Parijs'', CodesStr ''&countryBias=NL'') = None
   \<and> gaz_demo (length (requests w0)) (codes_URL ''u'' ''Parijs'' ''&countryBias=NL'') =
       Inr (Geonames (map json_of [parijs]))
   \<and> fst (findID gaz_demo ''u'' ''Parijs'' (CodesStr ''&countryBias=NL'') w0) = Inr (Id 2988507)"
proof -
  have m1: "findID_cache w0 (''Berlijn'', CodesStr ''&countryBias=NL'') = None"
    and m2: "findID_cache w0 (''Parijs'', CodesStr ''&countryBias=NL'') = None"
    by (simp_all add: w0_def)
  have ne: "''&countryBias=NL'' \<noteq> []" by simp
  have g1: "gaz_demo (length (requests w0)) (codes_URL ''u'' ''Berlijn'' ''&countryBias=NL'') =
       Inr (Geonames (map json_of []))" by (rule gaz_demo_simps)
  have g2: "gaz_demo (length (requests w0)) (codes_URL ''u'' ''Parijs'' ''&countryBias=NL'') =
       Inr (Geonames (map json_of [parijs]))" by (rule gaz_demo_simps)
  from findID_bias_fallback [where gaz = gaz_demo and w = w0 and placeName = "''Berlijn''"
      and user = "''u''" and codes = "''&countryBias=NL''" and cands = "[]", OF m1 ne g1]
    findID_bias_fallback [where gaz = gaz_demo and w = w0 and placeName = "''Parijs''"
      and user = "''u''" and codes = "''&countryBias=NL''" and cands = "[parijs]", OF m2 ne g2] m1 m2 g1 g2
  show ?thesis
    by (simp add: baseline_berlijn parijs_def)
qed

text \<open>
  C9. The claim says that a biased resolution returns 0 when the first candidate has no
  id. The code sets \<^verbatim>\<open>id = 0\<close> and then reads \<^verbatim>\<open>firstOption["geonameId"]\<close> without a
  test: for a candidate without that key the resolution ends in \<^verbatim>\<open>KeyError\<close>.
\<close>

theorem findID_missing_id_raises:
  "fst (findID gaz_noid ''u'' ''Parijs'' (CodesStr ''&countryBias=NL'') w0) =
     Inl (KeyError ''geonameId'')"
  by (simp add: findID_def findID_body_def http_get_def gaz_noid_def w0_def)

section \<open>Properties of the memo tables and of the two phases\<close>

lemma map_le_fresh: "m k = None \<Longrightarrow> m \<subseteq>\<^sub>m m(k \<mapsto> v)"
  unfolding map_le_def by (auto simp: dom_def)

lemma findID_baseline_body_effect:
  "findID_baseline_body gaz user p w = (x, w') \<Longrightarrow>
     w' = w\<lparr>requests := requests w @ [baseline_URL user p]\<rparr>"
  by (auto simp: findID_baseline_body_def http_get_def
      split: sum.splits response.splits list.splits option.splits)



lemma findID_baseline_effect:
  assumes "findID_baseline gaz user p w = (x, w')"
  shows "findID_cache w' = findID_cache w \<and> baseline_cache w \<subseteq>\<^sub>m baseline_cache w' \<and>
      (requests w' = requests w \<or> requests w' = requests w @ [baseline_URL user p]) \<and>
      (\<forall>v. x = Inr v \<longrightarrow> baseline_cache w' p = Some v)"
proof (cases "baseline_cache w p")
  case (Some u)
  with assms have "x = Inr u" "w' = w" by (simp_all add: findID_baseline_def)
  with Some show ?thesis by simp
next
  case None
  obtain y w'' where b: "findID_baseline_body gaz user p w = (y, w'')"
    by (cases "findID_baseline_body gaz user p w")
  from findID_baseline_body_effect [OF b]
  have w'': "w'' = w\<lparr>requests := requests w @ [baseline_URL user p]\<rparr>" .
  show ?thesis
  proof (cases y)
    case (Inl e)
    with assms None b have "w' = w''" "x = Inl e" by (simp_all add: findID_baseline_def)
    then show ?thesis by (simp add: w'')
  next
    case (Inr i)
    with assms None b have "w' = w''\<lparr>baseline_cache := (baseline_cache w'')(p \<mapsto> i)\<rparr>" "x = Inr i"
      by (simp_all add: findID_baseline_def)
    then show ?thesis using map_le_fresh [of "baseline_cache w" p i] None by (simp add: w'')
  qed
qed

lemma findID_body_truthy:
  assumes "truthy c" and "findID_body gaz user p c w = (x, w')"
  shows "w' = w\<lparr>requests := requests w @ [codes_URL user p (codes_text c)]\<rparr>
    \<or> (\<exists>y. findID_baseline gaz user p
              (w\<lparr>requests := requests w @ [codes_URL user p (codes_text c)]\<rparr>) = (y, w'))"
  using assms
  by (auto simp: findID_body_def http_get_def
      split: sum.splits response.splits list.splits option.splits prod.splits)

lemma findID_body_falsy:
  assumes "\<not> truthy c" and "findID_body gaz user p c w = (x, w')"
  shows "w' = w\<lparr>requests := requests w @ [country_URL user p]\<rparr>"
  using assms
  by (auto simp: findID_body_def http_get_def
      split: sum.splits response.splits list.splits option.splits if_splits)

lemma findID_body_effect:
  assumes "findID_body gaz user p c w = (x, w')"
  shows "findID_cache w' = findID_cache w \<and> baseline_cache w \<subseteq>\<^sub>m baseline_cache w' \<and>
    (\<exists>extra. requests w' = requests w @ extra
       \<and> length extra \<le> (if truthy c then 2 else 1)
       \<and> set extra \<subseteq> (if truthy c then {codes_URL user p (codes_text c), baseline_URL user p}
                        else {country_URL user p}))"
proof (cases "truthy c")
  case False
  from findID_body_falsy [OF False assms] show ?thesis
    using False by simp
next
  case True
  define w1 where "w1 = w\<lparr>requests := requests w @ [codes_URL user p (codes_text c)]\<rparr>"
  from findID_body_truthy [OF True assms]
  consider "w' = w1" | y where "findID_baseline gaz user p w1 = (y, w')"
    unfolding w1_def by blast
  then show ?thesis
  proof cases
    case 1
    then show ?thesis using True by (simp add: w1_def)
  next
    case 2
    from findID_baseline_effect [OF 2]
    have f: "findID_cache w' = findID_cache w1" and b: "baseline_cache w1 \<subseteq>\<^sub>m baseline_cache w'"
      and r: "requests w' = requests w1 \<or> requests w' = requests w1 @ [baseline_URL user p]"
      by simp_all
    from r show ?thesis
    proof
      assume "requests w' = requests w1"
      then have "requests w' = requests w @ [codes_URL user p (codes_text c)]"
        by (simp add: w1_def)
      with f b True show ?thesis by (simp add: w1_def)
    next
      assume "requests w' = requests w1 @ [baseline_URL user p]"
      then have "requests w' = requests w @ [codes_URL user p (codes_text c), baseline_URL user p]"
        by (simp add: w1_def)
      with f b True show ?thesis by (simp add: w1_def)
    qed
  qed
qed

lemma findID_effect:
  assumes "findID gaz user p c w = (x, w')"
  shows "findID_cache w \<subseteq>\<^sub>m findID_cache w' \<and> baseline_cache w \<subseteq>\<^sub>m baseline_cache w' \<and>
    (\<exists>extra. requests w' = requests w @ extra
       \<and> length extra \<le> (if truthy c then 2 else 1)
       \<and> set extra \<subseteq> (if truthy c then {codes_URL user p (codes_text c), baseline_URL user p}
                        else {country_URL user p})) \<and>
    (\<forall>v. x = Inr v \<longrightarrow> findID_cache w' (p, c) = Some v)"
proof (cases "findID_cache w (p, c)")
  case (Some u)
  with assms have "x = Inr u" "w' = w" by (simp_all add: findID_def)
  with Some show ?thesis by simp
next
  case None
  obtain y w'' where b: "findID_body gaz user p c w = (y, w'')"
    by (cases "findID_body gaz user p c w")
  note e = findID_body_effect [OF b]
  show ?thesis
  proof (cases y)
    case (Inl e')
    with assms None b have "w' = w''" "x = Inl e'" by (simp_all add: findID_def)
    with e show ?thesis by simp
  next
    case (Inr v)
    with assms None b have w': "w' = w''\<lparr>findID_cache := (findID_cache w'')((p, c) \<mapsto> v)\<rparr>"
      and x: "x = Inr v"
      by (simp_all add: findID_def)
    from e map_le_fresh [of "findID_cache w" "(p, c)" v] None have "findID_cache w \<subseteq>\<^sub>m findID_cache w'"
      by (simp add: w')
    with e show ?thesis by (simp add: w' x)
  qed
qed





lemma unresolved_rows_iff:
  "(i, r) \<in> set (unresolved_rows pd) \<longleftrightarrow> i < length pd \<and> r = pd ! i \<and> predID r = 0"
  by (auto simp: unresolved_rows_def in_set_enumerate_eq)

lemma phase2_effect:
  assumes ne: "codesURL \<noteq> []"
  shows "phase2 gaz user cell codesURL sel pd w = (Inr out, w') \<Longrightarrow>
     length out = length pd
     \<and> (\<forall>i. i \<notin> fst ` set sel \<longrightarrow> out ! i = pd ! i)
     \<and> (\<exists>extra. requests w' = requests w @ extra
          \<and> (\<forall>u \<in> set extra. \<exists>(i, r) \<in> set sel.
                u = codes_URL user (toponym r) codesURL \<or> u = baseline_URL user (toponym r)))"
proof (induction sel arbitrary: pd w)
  case Nil
  then show ?case by simp
next
  case (Cons a sel)
  obtain i r where a: "a = (i, r)" by (cases a)
  obtain x w1 where f: "findID gaz user (toponym r) (CodesStr codesURL) w = (x, w1)"
    by (cases "findID gaz user (toponym r) (CodesStr codesURL) w")
  from Cons.prems a f obtain p v where x: "x = Inr (Id p)" and c: "cell p = Inr v"
    and rest: "phase2 gaz user cell codesURL sel (pd[i := (pd ! i)\<lparr>predID := v\<rparr>]) w1 = (Inr out, w')"
    by (auto split: sum.splits result.splits)
  from Cons.IH [OF rest]
  have len: "length out = length pd"
    and keep: "\<forall>j. j \<notin> fst ` set sel \<longrightarrow> out ! j = (pd[i := (pd ! i)\<lparr>predID := v\<rparr>]) ! j"
    and req: "\<exists>extra. requests w' = requests w1 @ extra
          \<and> (\<forall>u \<in> set extra. \<exists>(i, r) \<in> set sel.
                u = codes_URL user (toponym r) codesURL \<or> u = baseline_URL user (toponym r))"
    by simp_all
  from req obtain e2 where e2: "requests w' = requests w1 @ e2"
    and p2: "\<forall>u \<in> set e2. \<exists>(i, r) \<in> set sel.
                u = codes_URL user (toponym r) codesURL \<or> u = baseline_URL user (toponym r)"
    by blast
  from findID_effect [OF f] ne obtain e1 where e1: "requests w1 = requests w @ e1"
    and p1: "set e1 \<subseteq> {codes_URL user (toponym r) codesURL, baseline_URL user (toponym r)}"
    by auto
  have k: "\<forall>j. j \<notin> fst ` set (a # sel) \<longrightarrow> out ! j = pd ! j"
  proof (intro allI impI)
    fix j assume j: "j \<notin> fst ` set (a # sel)"
    then have "j \<noteq> i" and "j \<notin> fst ` set sel" by (simp_all add: a)
    with keep show "out ! j = pd ! j" by simp
  qed
  have q: "\<forall>u \<in> set (e1 @ e2). \<exists>(i, r) \<in> set (a # sel).
                u = codes_URL user (toponym r) codesURL \<or> u = baseline_URL user (toponym r)"
  proof
    fix u assume "u \<in> set (e1 @ e2)"
    then consider "u \<in> set e1" | "u \<in> set e2" by auto
    then show "\<exists>(i, r) \<in> set (a # sel).
                u = codes_URL user (toponym r) codesURL \<or> u = baseline_URL user (toponym r)"
    proof cases
      case 1
      with p1 have "u = codes_URL user (toponym r) codesURL \<or> u = baseline_URL user (toponym r)"
        by blast
      then show ?thesis by (simp add: a)
    next
      case 2
      with p2 show ?thesis by auto
    qed
  qed
  from e1 e2 have "requests w' = requests w @ (e1 @ e2)" by simp
  with q len k show ?case by blast
qed

text \<open>
  C2. When \<^verbatim>\<open>processArticle\<close> returns, its second phase is the loop over the rows whose
  id after the first phase is 0, and over no other row. A row whose id after the first
  phase is not 0 is the same in the result, and every request of the second phase is the
  biased query, or the baseline query of its fallback, for the text of a row whose id
  after the first phase is 0.
\<close>

theorem processArticle_two_pass:
  assumes p1: "phase1 gaz user cell (enumerate 0 data) (map (\<lambda>m. with_predID m 0) data) [] w
                 = (Inr (pd1, codes), w1)"
    and ms: "makeString set_order codes = Inr codesURL"
    and pa: "processArticle gaz user set_order cell data w = (Inr out, w2)"
  shows "processArticle gaz user set_order cell data w =
           phase2 gaz user cell codesURL (unresolved_rows pd1) pd1 w1
    \<and> (\<forall>(i, r) \<in> set (unresolved_rows pd1). i < length pd1 \<and> r = pd1 ! i \<and> predID r = 0)
    \<and> length out = length pd1
    \<and> (\<forall>i < length pd1. predID (pd1 ! i) \<noteq> 0 \<longrightarrow> out ! i = pd1 ! i)
    \<and> (\<exists>extra. requests w2 = requests w1 @ extra
         \<and> (\<forall>u \<in> set extra. \<exists>r \<in> set pd1. predID r = 0
               \<and> (u = codes_URL user (toponym r) codesURL \<or> u = baseline_URL user (toponym r))))"
proof -
  from pa have d: "data \<noteq> []" by (auto simp: processArticle_def)
  with p1 ms have eq: "processArticle gaz user set_order cell data w =
           phase2 gaz user cell codesURL (unresolved_rows pd1) pd1 w1"
    by (simp add: processArticle_def)
  with pa have ph: "phase2 gaz user cell codesURL (unresolved_rows pd1) pd1 w1 = (Inr out, w2)"
    by simp
  from makeString_nonempty [OF ms] have ne: "codesURL \<noteq> []" .
  from phase2_effect [OF ne ph]
  have len: "length out = length pd1"
    and keep: "\<forall>i. i \<notin> fst ` set (unresolved_rows pd1) \<longrightarrow> out ! i = pd1 ! i"
    and req: "\<exists>extra. requests w2 = requests w1 @ extra
          \<and> (\<forall>u \<in> set extra. \<exists>(i, r) \<in> set (unresolved_rows pd1).
                u = codes_URL user (toponym r) codesURL \<or> u = baseline_URL user (toponym r))"
    by simp_all
  have sel: "\<forall>(i, r) \<in> set (unresolved_rows pd1). i < length pd1 \<and> r = pd1 ! i \<and> predID r = 0"
    by (auto simp: unresolved_rows_iff)
  have k: "\<forall>i < length pd1. predID (pd1 ! i) \<noteq> 0 \<longrightarrow> out ! i = pd1 ! i"
  proof (intro allI impI)
    fix i assume "i < length pd1" and nz: "predID (pd1 ! i) \<noteq> 0"
    have "i \<notin> fst ` set (unresolved_rows pd1)"
    proof
      assume "i \<in> fst ` set (unresolved_rows pd1)"
      then obtain r where "(i, r) \<in> set (unresolved_rows pd1)" by force
      then have "predID (pd1 ! i) = 0" by (metis unresolved_rows_iff)
      with nz show False by simp
    qed
    with keep show "out ! i = pd1 ! i" by simp
  qed
  from req obtain extra where e: "requests w2 = requests w1 @ extra"
    and q: "\<forall>u \<in> set extra. \<exists>(i, r) \<in> set (unresolved_rows pd1).
                u = codes_URL user (toponym r) codesURL \<or> u = baseline_URL user (toponym r)"
    by blast
  have "\<forall>u \<in> set extra. \<exists>r \<in> set pd1. predID r = 0
               \<and> (u = codes_URL user (toponym r) codesURL \<or> u = baseline_URL user (toponym r))"
  proof
    fix u assume "u \<in> set extra"
    with q obtain i r where m: "(i, r) \<in> set (unresolved_rows pd1)"
      and u: "u = codes_URL user (toponym r) codesURL \<or> u = baseline_URL user (toponym r)"
      by blast
    from m have "r \<in> set pd1" "predID r = 0" by (auto simp: unresolved_rows_iff)
    with u show "\<exists>r \<in> set pd1. predID r = 0
               \<and> (u = codes_URL user (toponym r) codesURL \<or> u = baseline_URL user (toponym r))"
      by blast
  qed
  with e eq sel len k show ?thesis by blast
qed

text \<open>The runs of the examples, evaluated.\<close>

lemmas demo_defs = country_URL_def codes_URL_def baseline_URL_def urlBase_def gaz_demo_def
  w0_def json_of_def nederland_def parijs_def berlijn_def




lemma demo_phase1:
  "fst (phase1 gaz_demo ''u'' cell_exact (enumerate 0 demo_data)
          (map (\<lambda>m. with_predID m 0) demo_data) [] w0) = Inr (demo_pd1, [''NL''])"
  by (simp add: findID_def findID_body_def http_get_def startswith_def cell_exact_def
      demo_data_def demo_pd1_def with_predID_def enumerate_eq_zip upt_rec demo_defs)


lemma demo_process:
  "fst (processArticle gaz_demo ''u'' remdups cell_exact demo_data w0) = Inr demo_out"
  by (simp add: processArticle_def makeString_def unresolved_rows_def
      findID_def findID_body_def findID_baseline_def findID_baseline_body_def
      http_get_def startswith_def cell_exact_def
      demo_data_def demo_out_def with_predID_def enumerate_eq_zip upt_rec demo_defs)

lemma demo_requests:
  "requests (snd (processArticle gaz_demo ''u'' remdups cell_exact demo_data w0)) =
     requests (snd (phase1 gaz_demo ''u'' cell_exact (enumerate 0 demo_data)
          (map (\<lambda>m. with_predID m 0) demo_data) [] w0))
     @ [codes_URL ''u'' ''Parijs'' ''&countryBias=NL'', codes_URL ''u'' ''Atlantis'' ''&countryBias=NL'',
        baseline_URL ''u'' ''Atlantis'']"
  by (simp add: processArticle_def makeString_def unresolved_rows_def
      findID_def findID_body_def findID_baseline_def findID_baseline_body_def
      http_get_def startswith_def cell_exact_def
      demo_data_def with_predID_def enumerate_eq_zip upt_rec demo_defs)



text \<open>The article of three mentions: the country is kept, the two others are queried.\<close>

theorem processArticle_two_pass_witness:
  "phase1 gaz_demo ''u'' cell_exact (enumerate 0 demo_data) (map (\<lambda>m. with_predID m 0) demo_data) [] w0
     = (Inr (demo_pd1, [''NL'']),
        snd (phase1 gaz_demo ''u'' cell_exact (enumerate 0 demo_data)
               (map (\<lambda>m. with_predID m 0) demo_data) [] w0))
   \<and> makeString remdups [''NL''] = Inr ''&countryBias=NL''
   \<and> processArticle gaz_demo ''u'' remdups cell_exact demo_data w0
     = (Inr demo_out, snd (processArticle gaz_demo ''u'' remdups cell_exact demo_data w0))
   \<and> length demo_out = length demo_pd1
   \<and> predID (demo_pd1 ! 0) \<noteq> 0 \<and> demo_out ! 0 = demo_pd1 ! 0
   \<and> predID (demo_pd1 ! 1) = 0 \<and> predID (demo_out ! 1) = 2988507
   \<and> requests (snd (processArticle gaz_demo ''u'' remdups cell_exact demo_data w0)) =
       requests (snd (phase1 gaz_demo ''u'' cell_exact (enumerate 0 demo_data)
          (map (\<lambda>m. with_predID m 0) demo_data) [] w0))
       @ [codes_URL ''u'' ''Parijs'' ''&countryBias=NL'',
          codes_URL ''u'' ''Atlantis'' ''&countryBias=NL'', baseline_URL ''u'' ''Atlantis'']"
proof -
  have p1: "phase1 gaz_demo ''u'' cell_exact (enumerate 0 demo_data)
       (map (\<lambda>m. with_predID m 0) demo_data) [] w0
     = (Inr (demo_pd1, [''NL'']),
        snd (phase1 gaz_demo ''u'' cell_exact (enumerate 0 demo_data)
               (map (\<lambda>m. with_predID m 0) demo_data) [] w0))"
    using demo_phase1 by (simp add: prod_eq_iff)
  have ms: "makeString remdups [''NL''] = Inr ''&countryBias=NL''"
    by (simp add: makeString_def)
  have pa: "processArticle gaz_demo ''u'' remdups cell_exact demo_data w0
     = (Inr demo_out, snd (processArticle gaz_demo ''u'' remdups cell_exact demo_data w0))"
    using demo_process by (simp add: prod_eq_iff)
  have v: "predID (demo_pd1 ! 0) \<noteq> 0" "predID (demo_pd1 ! 1) = 0" "predID (demo_out ! 1) = 2988507"
    by (simp_all add: demo_pd1_def demo_out_def)
  from processArticle_two_pass [where gaz = gaz_demo and user = "''u''" and cell = cell_exact
      and data = demo_data and w = w0 and set_order = remdups, OF p1 ms pa]
  have "length demo_out = length demo_pd1"
    and "\<forall>i < length demo_pd1. predID (demo_pd1 ! i) \<noteq> 0 \<longrightarrow> demo_out ! i = demo_pd1 ! i"
    by simp_all
  then have "length demo_out = length demo_pd1" and "demo_out ! 0 = demo_pd1 ! 0"
    using v(1) by (simp_all add: demo_pd1_def)
  with p1 ms pa v demo_requests show ?thesis by simp
qed

end
